theory Spec2Isabelle
  imports Complex_Main
begin

section \<open>Text\<close>

text \<open>
  JavaScript strings are sequences of UTF-16 code units. The model works over the
  code units 0..255 (Isabelle's \<open>char\<close>), which covers every text the stream protocol,
  the rubric format and the question templates are written in.
\<close>

abbreviation LF :: char where
  "LF \<equiv> CHR 0x0A"

abbreviation DQ :: char where
  "DQ \<equiv> CHR 0x22"

definition js_whitespace :: "char \<Rightarrow> bool" where
  \<comment> \<open>White space and line terminators of ECMAScript below U+0100: what \<open>\s\<close> matches
      and what \<open>String.prototype.trim\<close> strips.\<close>
  "js_whitespace c \<longleftrightarrow>
     c \<in> set [CHR 0x09, CHR 0x0A, CHR 0x0B, CHR 0x0C, CHR 0x0D, CHR 0x20, CHR 0xA0]"

definition digit :: "char \<Rightarrow> bool" where
  \<comment> \<open>\<open>\d\<close>\<close>
  "digit c \<longleftrightarrow> c \<in> set ''0123456789''"

definition trim :: "string \<Rightarrow> string" where
  "trim s = rev (dropWhile js_whitespace (rev (dropWhile js_whitespace s)))"

fun split_on :: "char \<Rightarrow> string \<Rightarrow> string list" where
  \<comment> \<open>\<open>s.split(sep)\<close> for a one-character separator: always at least one piece.\<close>
  "split_on sep [] = [[]]"
| "split_on sep (c # cs) =
     (if c = sep then [] # split_on sep cs
      else (case split_on sep cs of
              [] \<Rightarrow> [[c]]
            | p # ps \<Rightarrow> (c # p) # ps))"

fun starts_with :: "string \<Rightarrow> string \<Rightarrow> bool" where
  \<comment> \<open>\<open>starts_with p s\<close>: \<open>s.startsWith(p)\<close>\<close>
  "starts_with [] s = True"
| "starts_with (p # ps) [] = False"
| "starts_with (p # ps) (c # cs) = (p = c \<and> starts_with ps cs)"

fun digit_value :: "char \<Rightarrow> nat" where
  "digit_value c = of_char c - 48"

fun show_digit :: "nat \<Rightarrow> char" where
  "show_digit d = char_of (48 + d)"

fun show_nat :: "nat \<Rightarrow> string" where
  \<comment> \<open>decimal rendering of a non-negative integer inside a template literal\<close>
  "show_nat n = (if n < 10 then [show_digit n] else show_nat (n div 10) @ [show_digit (n mod 10)])"

section \<open>JSON values and \<open>JSON.parse\<close>\<close>

text \<open>
  \<open>JSON.parse\<close> is a built-in of the platform; it is modelled by a lexer and a stack
  parser for the JSON grammar (ECMA-404). A number keeps its literal text: the
  double it denotes is never needed. \<open>None\<close> stands for the \<open>SyntaxError\<close> that
  \<open>JSON.parse\<close> throws. An object keeps its keys in order of first insertion, a later
  duplicate key replacing the value. A \<open>\u\<close> escape denotes the code unit of its four
  hex digits. Above 255 the code unit has no character in the alphabet of the model, and
  the string keeps the six characters of the escape in its place: such a string holds a
  backslash, so it equals none of the property names and record types that the program
  compares with, as in the source.

  The lexer reads one character at a time. A number is read as the longest run of
  characters that occur in numbers and is then checked against the number grammar:
  in JSON a number is followed by white space, a comma or a closing bracket, so a run
  that fails the check has no other reading.
\<close>

datatype json =
    JNull
  | JBool bool
  | JNumber string
  | JString string
  | JArray "json list"
  | JObject "(string \<times> json) list"

fun obj_put :: "string \<Rightarrow> 'v \<Rightarrow> (string \<times> 'v) list \<Rightarrow> (string \<times> 'v) list" where
  "obj_put k v [] = [(k, v)]"
| "obj_put k v ((k', v') # ps) =
     (if k = k' then (k, v) # ps else (k', v') # obj_put k v ps)"

datatype token =
    LBrace | RBrace | LBracket | RBracket | Colon | Comma
  | TString string | TNumber string | TTrue | TFalse | TNull

datatype lex_mode =
    Top
  | InString string
  | InEscape string
  | InUnicode string string
  | InNumber string
  | InLiteral string token

definition json_ws :: "char \<Rightarrow> bool" where
  "json_ws c \<longleftrightarrow> c \<in> set [CHR 0x20, CHR 0x09, CHR 0x0A, CHR 0x0D]"

definition number_char :: "char \<Rightarrow> bool" where
  "number_char c \<longleftrightarrow> digit c \<or> c \<in> set ''+-.eE''"

definition exponent_ok :: "string \<Rightarrow> bool" where
  \<comment> \<open>nothing, or \<open>[eE][+-]?[0-9]+\<close>\<close>
  "exponent_ok r =
     (case r of
        [] \<Rightarrow> True
      | e # r1 \<Rightarrow>
          e \<in> set ''eE'' \<and>
          (let r2 = (case r1 of [] \<Rightarrow> [] | s # r3 \<Rightarrow> if s \<in> set ''+-'' then r3 else r1)
           in r2 \<noteq> [] \<and> list_all digit r2))"

definition fraction_ok :: "string \<Rightarrow> bool" where
  \<comment> \<open>an optional \<open>\.[0-9]+\<close>, then the exponent\<close>
  "fraction_ok r =
     (case r of
        [] \<Rightarrow> True
      | c # r1 \<Rightarrow>
          if c = CHR ''.'' then
            (case r1 of [] \<Rightarrow> False
             | d # _ \<Rightarrow> digit d \<and> exponent_ok (dropWhile digit r1))
          else exponent_ok r)"

definition json_number :: "string \<Rightarrow> bool" where
  \<comment> \<open>\<open>-?(0|[1-9][0-9]*)(\.[0-9]+)?([eE][+-]?[0-9]+)?\<close>\<close>
  "json_number s =
     (let s1 = (case s of [] \<Rightarrow> [] | c # r \<Rightarrow> if c = CHR ''-'' then r else s)
      in case s1 of
           [] \<Rightarrow> False
         | d # r \<Rightarrow>
             if d = CHR ''0'' then fraction_ok r
             else digit d \<and> fraction_ok (dropWhile digit r))"

fun hex_value :: "char \<Rightarrow> nat option" where
  "hex_value c =
     (if digit c then Some (of_char c - 48)
      else if c \<in> set ''abcdef'' then Some (of_char c - 87)
      else if c \<in> set ''ABCDEF'' then Some (of_char c - 55)
      else None)"

fun hex_number :: "string \<Rightarrow> nat" where
  "hex_number hs = foldl (\<lambda>n h. 16 * n + (case hex_value h of None \<Rightarrow> 0 | Some d \<Rightarrow> d)) 0 hs"

fun escape_char :: "char \<Rightarrow> char option" where
  "escape_char c =
     (if c = DQ \<or> c = CHR 0x5C \<or> c = CHR ''/'' then Some c
      else if c = CHR ''b'' then Some (CHR 0x08)
      else if c = CHR ''f'' then Some (CHR 0x0C)
      else if c = CHR ''n'' then Some (CHR 0x0A)
      else if c = CHR ''r'' then Some (CHR 0x0D)
      else if c = CHR ''t'' then Some (CHR 0x09)
      else None)"

fun top_char :: "char \<Rightarrow> (token option \<times> lex_mode) option" where
  \<comment> \<open>a character met between tokens: the token it completes, and the mode it opens\<close>
  "top_char c =
     (if json_ws c then Some (None, Top)
      else if c = CHR ''{'' then Some (Some LBrace, Top)
      else if c = CHR ''}'' then Some (Some RBrace, Top)
      else if c = CHR ''['' then Some (Some LBracket, Top)
      else if c = CHR '']'' then Some (Some RBracket, Top)
      else if c = CHR '':'' then Some (Some Colon, Top)
      else if c = CHR '','' then Some (Some Comma, Top)
      else if c = DQ then Some (None, InString [])
      else if digit c \<or> c = CHR ''-'' then Some (None, InNumber [c])
      else if c = CHR ''t'' then Some (None, InLiteral ''rue'' TTrue)
      else if c = CHR ''f'' then Some (None, InLiteral ''alse'' TFalse)
      else if c = CHR ''n'' then Some (None, InLiteral ''ull'' TNull)
      else None)"

fun emit :: "token option \<Rightarrow> token list option \<Rightarrow> token list option" where
  "emit t None = None"
| "emit None (Some ts) = Some ts"
| "emit (Some t) (Some ts) = Some (t # ts)"

fun lexer :: "lex_mode \<Rightarrow> string \<Rightarrow> token list option" where
  "lexer Top [] = Some []"
| "lexer (InNumber acc) [] =
     (if json_number (rev acc) then Some [TNumber (rev acc)] else None)"
| "lexer (InString acc) [] = None"
| "lexer (InEscape acc) [] = None"
| "lexer (InUnicode acc hs) [] = None"
| "lexer (InLiteral r t) [] = None"
| "lexer Top (c # cs) =
     (case top_char c of
        None \<Rightarrow> None
      | Some (t, m) \<Rightarrow> emit t (lexer m cs))"
| "lexer (InString acc) (c # cs) =
     (if c = DQ then emit (Some (TString (rev acc))) (lexer Top cs)
      else if c = CHR 0x5C then lexer (InEscape acc) cs
      else if (of_char c :: nat) < 32 then None
      else lexer (InString (c # acc)) cs)"
| "lexer (InEscape acc) (c # cs) =
     (case escape_char c of
        Some e \<Rightarrow> lexer (InString (e # acc)) cs
      | None \<Rightarrow> if c = CHR ''u'' then lexer (InUnicode acc []) cs else None)"
| "lexer (InUnicode acc hs) (c # cs) =
     (if hex_value c = None then None
      else if length hs = 3 then
        (if hex_number (hs @ [c]) < 256 then
           lexer (InString (char_of (hex_number (hs @ [c])) # acc)) cs
         else lexer (InString (rev (CHR 0x5C # CHR ''u'' # hs @ [c]) @ acc)) cs)
      else lexer (InUnicode acc (hs @ [c])) cs)"
| "lexer (InNumber acc) (c # cs) =
     (if number_char c then lexer (InNumber (c # acc)) cs
      else if json_number (rev acc) then
        (case top_char c of
           None \<Rightarrow> None
         | Some (t, m) \<Rightarrow> emit (Some (TNumber (rev acc))) (emit t (lexer m cs)))
      else None)"
| "lexer (InLiteral [] t) (c # cs) = None"
| "lexer (InLiteral (r # rs) t) (c # cs) =
     (if c \<noteq> r then None
      else if rs = [] then emit (Some t) (lexer Top cs)
      else lexer (InLiteral rs t) cs)"

datatype frame =
    ArrStart
  | ArrVal "json list"
  | ArrComma "json list"
  | ObjStart
  | ObjKey "(string \<times> json) list" string
  | ObjColon "(string \<times> json) list" string
  | ObjVal "(string \<times> json) list"
  | ObjComma "(string \<times> json) list"

text \<open>The parser state: the open arrays and objects, innermost first, and the finished
  top-level value once there is one.\<close>

type_synonym parse_state = "frame list \<times> json option"

fun put_value :: "json \<Rightarrow> parse_state \<Rightarrow> parse_state option" where
  \<comment> \<open>a complete value arrives where the innermost open frame expects one\<close>
  "put_value v ([], None) = Some ([], Some v)"
| "put_value v ([], Some w) = None"
| "put_value v (ArrStart # st, r) = Some (ArrVal [v] # st, r)"
| "put_value v (ArrComma vs # st, r) = Some (ArrVal (v # vs) # st, r)"
| "put_value v (ObjColon ps k # st, r) = Some (ObjVal (obj_put k v ps) # st, r)"
| "put_value v (_ # st, r) = None"

fun expects_value :: "parse_state \<Rightarrow> bool" where
  "expects_value ([], None) = True"
| "expects_value ([], Some w) = False"
| "expects_value (ArrStart # st, r) = True"
| "expects_value (ArrComma vs # st, r) = True"
| "expects_value (ObjColon ps k # st, r) = True"
| "expects_value (_ # st, r) = False"

fun parse_token :: "token \<Rightarrow> parse_state \<Rightarrow> parse_state option" where
  "parse_token TNull s = put_value JNull s"
| "parse_token TTrue s = put_value (JBool True) s"
| "parse_token TFalse s = put_value (JBool False) s"
| "parse_token (TNumber n) s = put_value (JNumber n) s"
| "parse_token (TString x) (ObjStart # st, r) = Some (ObjKey [] x # st, r)"
| "parse_token (TString x) (ObjComma ps # st, r) = Some (ObjKey ps x # st, r)"
| "parse_token (TString x) s = put_value (JString x) s"
| "parse_token LBracket (st, r) =
     (if expects_value (st, r) then Some (ArrStart # st, r) else None)"
| "parse_token LBrace (st, r) =
     (if expects_value (st, r) then Some (ObjStart # st, r) else None)"
| "parse_token RBracket (ArrStart # st, r) = put_value (JArray []) (st, r)"
| "parse_token RBracket (ArrVal vs # st, r) = put_value (JArray (rev vs)) (st, r)"
| "parse_token RBracket s = None"
| "parse_token RBrace (ObjStart # st, r) = put_value (JObject []) (st, r)"
| "parse_token RBrace (ObjVal ps # st, r) = put_value (JObject ps) (st, r)"
| "parse_token RBrace s = None"
| "parse_token Comma (ArrVal vs # st, r) = Some (ArrComma vs # st, r)"
| "parse_token Comma (ObjVal ps # st, r) = Some (ObjComma ps # st, r)"
| "parse_token Comma s = None"
| "parse_token Colon (ObjKey ps k # st, r) = Some (ObjColon ps k # st, r)"
| "parse_token Colon s = None"

fun parse_tokens :: "token list \<Rightarrow> parse_state \<Rightarrow> json option" where
  "parse_tokens [] ([], Some v) = Some v"
| "parse_tokens [] s = None"
| "parse_tokens (t # ts) s =
     (case parse_token t s of
        None \<Rightarrow> None
      | Some s' \<Rightarrow> parse_tokens ts s')"

definition JSON_parse :: "string \<Rightarrow> json option" where
  "JSON_parse s =
     (case lexer Top s of
        None \<Rightarrow> None
      | Some ts \<Rightarrow> parse_tokens ts ([], None))"

section \<open>Thrown values\<close>

text \<open>
  What a \<open>catch\<close> clause of this program can receive: an \<open>Error\<close> instance (also a
  \<open>TypeError\<close> or \<open>SyntaxError\<close>) with its message, a string, a falsy value
  (\<open>undefined\<close>, \<open>null\<close>, \<open>0\<close>, \<open>false\<close>), or any other value, kept as the text
  that \<open>JSON.stringify\<close> (or \<open>String\<close>) renders it to.
\<close>

datatype thrown =
    ErrorObj string
  | ThrownString string
  | ThrownFalsy
  | ThrownOther string

fun toErrorString :: "thrown \<Rightarrow> string" where
  "toErrorString ThrownFalsy = ''Unknown error''"
| "toErrorString (ErrorObj m) = m"
| "toErrorString (ThrownString s) = (if s = [] then ''Unknown error'' else s)"
| "toErrorString (ThrownOther r) = r"

section \<open>Conversions of parsed values\<close>

fun join :: "string \<Rightarrow> string list \<Rightarrow> string" where
  \<comment> \<open>\<open>pieces.join(sep)\<close>\<close>
  "join sep [] = []"
| "join sep [p] = p"
| "join sep (p # q # ps) = p @ sep @ join sep (q # ps)"

text \<open>
  \<open>ToString\<close> of a value that \<open>JSON.parse\<close> returned, as string concatenation and
  \<open>new Error(v)\<close> apply it; \<open>None\<close> stands for the \<open>TypeError\<close> of an object that cannot be
  converted to a primitive. An object goes through \<open>Object.prototype.toString\<close> unless it
  has an own property \<open>toString\<close>, which, coming from JSON, is not callable: the
  conversion then throws. An array joins the conversions of its elements with commas,
  \<open>null\<close> giving the empty string. The rendering of a number is the platform's
  (\<open>Number.prototype.toString\<close> of the double the literal denotes); it is the parameter
  \<open>fmt\<close>, from the literal's text to the rendering.
\<close>

fun all_some :: "'a option list \<Rightarrow> 'a list option" where
  "all_some [] = Some []"
| "all_some (None # xs) = None"
| "all_some (Some x # xs) = map_option (Cons x) (all_some xs)"

fun js_toString :: "(string \<Rightarrow> string) \<Rightarrow> json \<Rightarrow> string option" where
  "js_toString fmt JNull = Some ''null''"
| "js_toString fmt (JBool b) = Some (if b then ''true'' else ''false'')"
| "js_toString fmt (JNumber n) = Some (fmt n)"
| "js_toString fmt (JString s) = Some s"
| "js_toString fmt (JObject ps) =
     (if map_of ps ''toString'' = None then Some ''[object Object]'' else None)"
| "js_toString fmt (JArray vs) =
     map_option (join '','')
       (all_some (map (\<lambda>v. if v = JNull then Some [] else js_toString fmt v) vs))"

fun own_prop :: "json \<Rightarrow> string \<Rightarrow> json option" where
  \<comment> \<open>\<open>data.type\<close> and \<open>data.data\<close> of a parsed value other than \<open>null\<close>: the own property of an
      object, \<open>undefined\<close> (\<open>None\<close>) on a string, a number, a boolean or an array\<close>
  "own_prop (JObject ps) k = map_of ps k"
| "own_prop v k = None"

section \<open>StreamingMessageClient: \<open>sendMessage\<close>\<close>

text \<open>
  The response of the chat backend to one request. \<open>FetchRejected\<close>: the \<open>fetch\<close> promise
  rejects. Otherwise a status, a status text and a body; a body is the list of chunks
  that \<open>reader.read()\<close> delivers, already decoded to text (for the ASCII records of the
  protocol the streaming decoder is the identity), followed by the end of the stream
  (\<open>None\<close>) or by a rejected read.
\<close>

datatype body_stream = Stream "string list" "thrown option"

datatype chat_response =
    FetchRejected thrown
  | Response nat string "body_stream option"

fun response_text :: "body_stream option \<Rightarrow> thrown + string" where
  \<comment> \<open>\<open>response.text()\<close>\<close>
  "response_text None = Inr []"
| "response_text (Some (Stream chunks None)) = Inr (concat chunks)"
| "response_text (Some (Stream chunks (Some e))) = Inl e"

datatype completion = Normal | Return string | Throw thrown

text \<open>
  The body of the \<open>try\<close> block's \<open>for (const msg of messages)\<close>: how the loop completes,
  and \<open>receivedMessage\<close> at that moment (the variable outlives the block). \<open>JSON.parse\<close>
  throws a \<open>SyntaxError\<close>; reading \<open>type\<close> of \<open>null\<close>, and appending a payload that has no
  primitive value, throw a \<open>TypeError\<close>. The message texts of these are the engine's and
  are not observable, since the \<open>catch\<close> clause of \<open>sendMessage\<close> drops whatever was thrown.
\<close>

fun process_lines :: "(string \<Rightarrow> string) \<Rightarrow> string list \<Rightarrow> string \<Rightarrow> completion \<times> string" where
  "process_lines fmt [] receivedMessage = (Normal, receivedMessage)"
| "process_lines fmt (msg # messages) receivedMessage =
     (if trim msg = [] then process_lines fmt messages receivedMessage
      else
        (case JSON_parse msg of
           None \<Rightarrow> (Throw (ErrorObj ''SyntaxError''), receivedMessage)
         | Some data \<Rightarrow>
             if data = JNull then (Throw (ErrorObj ''TypeError''), receivedMessage)
             else if own_prop data ''type'' = Some (JString ''error'') then
               (Throw (case own_prop data ''data'' of
                         None \<Rightarrow> ErrorObj []
                       | Some v \<Rightarrow>
                           (case js_toString fmt v of
                              Some m \<Rightarrow> ErrorObj m
                            | None \<Rightarrow> ErrorObj ''TypeError'')),
                receivedMessage)
             else
               (case (if own_prop data ''type'' = Some (JString ''message'') then
                        (case own_prop data ''data'' of
                           None \<Rightarrow> Some (receivedMessage @ ''undefined'')
                         | Some v \<Rightarrow> map_option (\<lambda>t. receivedMessage @ t) (js_toString fmt v))
                      else Some receivedMessage) of
                  None \<Rightarrow> (Throw (ErrorObj ''TypeError''), receivedMessage)
                | Some received' \<Rightarrow>
                    if own_prop data ''type'' = Some (JString ''messageEnd'') then
                      (Return (trim received'), received')
                    else process_lines fmt messages received')))"

text \<open>
  The \<open>while (true)\<close> loop over \<open>reader.read()\<close>, with the two variables it carries.
  A \<open>return\<close> inside the \<open>try\<close> ends the call; anything thrown inside it reaches
  \<open>catch (error) { continue; }\<close>, which keeps \<open>partialChunk\<close> as it is; only a pass
  that completes normally empties it.
\<close>

fun read_loop ::
  "(string \<Rightarrow> string) \<Rightarrow> string list \<Rightarrow> thrown option \<Rightarrow> string \<Rightarrow> string \<Rightarrow> thrown + string" where
  "read_loop fmt [] None partialChunk receivedMessage = Inr (trim receivedMessage)"
| "read_loop fmt [] (Some e) partialChunk receivedMessage = Inl e"
| "read_loop fmt (chunk # chunks) ending partialChunk receivedMessage =
     (let partialChunk' = partialChunk @ chunk
      in case process_lines fmt (split_on LF partialChunk') receivedMessage of
           (Return answer, received') \<Rightarrow> Inr answer
         | (Throw error, received') \<Rightarrow> read_loop fmt chunks ending partialChunk' received'
         | (Normal, received') \<Rightarrow> read_loop fmt chunks ending [] received')"

fun sendMessage :: "(string \<Rightarrow> string) \<Rightarrow> chat_response \<Rightarrow> thrown + string" where
  "sendMessage fmt (FetchRejected e) = Inl e"
| "sendMessage fmt (Response status statusText body) =
     (if \<not> (200 \<le> status \<and> status \<le> 299) then
        (let text = (case response_text body of Inl e \<Rightarrow> [] | Inr t \<Rightarrow> t);
             tail = (if text \<noteq> [] then '' | body: '' @ take 200 text else [])
         in Inl (ErrorObj (''Chat API '' @ show_nat status @ '' '' @ statusText @ tail)))
      else
        (case body of
           None \<Rightarrow> Inl (ErrorObj ''No response body received from chat API'')
         | Some (Stream chunks ending) \<Rightarrow> read_loop fmt chunks ending [] []))"

section \<open>QuestionPlanner\<close>

definition generateEnrichmentQuestions :: "string \<Rightarrow> string \<Rightarrow> string list" where
  "generateEnrichmentQuestions company fullDomain =
     [''What does '' @ company @ '' company do? Please give a short description in two lines.'',
      ''What is the website of the company with the domain '' @ fullDomain @ ''?'',
      ''What are the revenue figures for the company with the domain '' @ fullDomain @
        ''? Only include results related to this entity and list each figure along with the source name.'',
      ''What is the employee size of '' @ company @
        '' company? Please reply with only the number of employees in two short sentences, without additional explanation.'',
      ''How many years has '' @ company @
        '' company been in business? Please reply with only the number of years in two short sentences, without additional explanation.'',
      ''What is the latest funding news for '' @ company @
        '' company? Please reply with only the latest funding amount and date in two short sentences in bullet points, without additional explanation.'',
      ''Is '' @ company @ '' in the Fortune 500 list? Please respond with a yes or no and one short supporting detail.'',
      ''Is '' @ company @ '' in the Fortune 100 list? Please respond with a yes or no and one short supporting detail.'',
      ''Who are the clients of '' @ company @ ''? List major clients or industries they serve.'',
      ''What is the industry classification of '' @ company @ ''?'',
      ''What is the LinkedIn profile link of the company named '' @ company @ ''? Return only the link.'']"

definition first_piece :: "char \<Rightarrow> string \<Rightarrow> string" where
  \<comment> \<open>\<open>s.split(sep)[0]\<close>\<close>
  "first_piece sep s = (case split_on sep s of [] \<Rightarrow> [] | p # ps \<Rightarrow> p)"

definition extractCompanyInfo :: "string \<Rightarrow> thrown + string \<times> string" where
  \<comment> \<open>\<open>companyName\<close> and \<open>fullDomain\<close>; \<open>email.split('@')[1]\<close> is \<open>undefined\<close> when the
      email has no \<open>@\<close>, and \<open>domain.split\<close> then throws a \<open>TypeError\<close>. The two query
      strings of the source are computed and never read.\<close>
  "extractCompanyInfo email =
     (case split_on (CHR ''@'') email of
        local # domain # rest \<Rightarrow> Inr (first_piece (CHR ''.'') domain, domain)
      | _ \<Rightarrow>
          Inl (ErrorObj (''Cannot read properties of undefined (reading '' @ [CHR 0x27] @ ''split'' @
                 [CHR 0x27] @ '')'')))"

section \<open>LeadScorer: the parse of \<open>scoreLeadWithGemini\<close>\<close>

definition match_fraction :: "string \<Rightarrow> string option" where
  \<comment> \<open>\<open>(\.\d+)?\<close>: the digits of the fraction when there is one\<close>
  "match_fraction r =
     (case r of
        [] \<Rightarrow> None
      | c # r1 \<Rightarrow>
          if c = CHR ''.'' \<and> takeWhile digit r1 \<noteq> [] then Some (takeWhile digit r1) else None)"

definition match_total_score :: "string \<Rightarrow> (string \<times> string option) option" where
  \<comment> \<open>\<open>Total Score:\s*(\d+(\.\d+)?)\<close> anchored at the start of \<open>s\<close>: the integer digits
      and the fraction digits of capture group 1\<close>
  "match_total_score s =
     (if starts_with ''Total Score:'' s then
        (let r = dropWhile js_whitespace (drop 12 s)
         in if takeWhile digit r = [] then None
            else Some (takeWhile digit r, match_fraction (dropWhile digit r)))
      else None)"

fun find_total_score :: "string \<Rightarrow> (string \<times> string option) option" where
  \<comment> \<open>\<open>text.match(/Total Score:\s*(\d+(\.\d+)?)/)\<close>: the leftmost match\<close>
  "find_total_score [] = None"
| "find_total_score (c # cs) =
     (case match_total_score (c # cs) of
        Some m \<Rightarrow> Some m
      | None \<Rightarrow> find_total_score cs)"

fun reason_follows :: "bool \<Rightarrow> string \<Rightarrow> bool" where
  \<comment> \<open>\<open>.*(?:\n.*?)+Reason:\<close> from here on: some \<open>Reason:\<close> lies ahead, with a line feed
      before it (\<open>seen\<close>: one was already passed) and, \<open>.\<close> excluding line terminators,
      no carriage return\<close>
  "reason_follows seen [] = False"
| "reason_follows seen (c # cs) =
     ((seen \<and> starts_with ''Reason:'' (c # cs)) \<or>
      (c \<noteq> CHR 0x0D \<and> reason_follows (seen \<or> c = LF) cs))"

fun find_full_reason :: "string \<Rightarrow> bool" where
  \<comment> \<open>whether \<open>text.match(/Revenue Score:.*(?:\n.*?)+Reason:\s*([\s\S]*)/)\<close> is not null\<close>
  "find_full_reason [] = False"
| "find_full_reason (c # cs) =
     ((starts_with ''Revenue Score:'' (c # cs) \<and> reason_follows False (drop 14 (c # cs))) \<or>
      find_full_reason cs)"

definition nat_of_digits :: "string \<Rightarrow> nat" where
  "nat_of_digits ds = foldl (\<lambda>n d. 10 * n + digit_value d) 0 ds"

text \<open>
  The numbers that \<open>parseFloat\<close> returns on an unsigned decimal numeral: the non-negative
  finite doubles, as the rationals they are, and \<open>Infinity\<close>. \<open>round_to_double n p\<close> is
  the double nearest to \<open>n / p\<close>, ties to the even significand, as IEEE 754 and the
  engine of the Node runtime compute it: a significand of at most 53 bits, the exponent
  of its last bit at least \<open>-1074\<close>, and \<open>Infinity\<close> from \<open>2 ^ 1024\<close> on. (ECMAScript also
  allows an engine to cut a numeral at its 20th significant digit before rounding.)
\<close>

datatype number = Finite rat | Infinity

fun bit_length :: "nat \<Rightarrow> nat" where
  "bit_length n = (if n = 0 then 0 else Suc (bit_length (n div 2)))"

declare bit_length.simps [simp del]

definition pow2_le :: "int \<Rightarrow> nat \<Rightarrow> nat \<Rightarrow> bool" where
  \<comment> \<open>\<open>2 ^ k \<le> n / p\<close>, in integers\<close>
  "pow2_le k n p = (if 0 \<le> k then p * 2 ^ nat k \<le> n else p \<le> n * 2 ^ nat (- k))"

definition floor_log2 :: "nat \<Rightarrow> nat \<Rightarrow> int" where
  \<comment> \<open>for positive \<open>n\<close> and \<open>p\<close>, the \<open>k\<close> with \<open>2 ^ k \<le> n / p < 2 ^ (k + 1)\<close>: the
      difference of the bit lengths, or one less\<close>
  "floor_log2 n p =
     (let k = int (bit_length n) - int (bit_length p)
      in if pow2_le k n p then k else k - 1)"

definition round_half_even :: "nat \<Rightarrow> nat \<Rightarrow> nat" where
  \<comment> \<open>\<open>num / den\<close> rounded to the nearest integer, a tie to the even one\<close>
  "round_half_even num den =
     (let f = num div den; r = num mod den
      in if 2 * r < den then f
         else if den < 2 * r then f + 1
         else if even f then f else f + 1)"

definition round_to_double :: "nat \<Rightarrow> nat \<Rightarrow> number" where
  "round_to_double n p =
     (if n = 0 then Finite 0
      else
        (let e = max (- 1074) (floor_log2 n p - 52)
         in if 0 \<le> e then
              (let m = round_half_even n (p * 2 ^ nat e)
               in if 2 ^ 1024 \<le> m * 2 ^ nat e then Infinity else Finite (of_int (int (m * 2 ^ nat e))))
            else
              (let m = round_half_even (n * 2 ^ nat (- e)) p
               in Finite (of_int (int m) / of_int (int (2 ^ nat (- e)))))))"

definition parseFloat :: "string \<times> string option \<Rightarrow> number" where
  \<comment> \<open>\<open>parseFloat(scoreMatch[1])\<close>, on the integer digits and the fraction digits of the
      capture: the double nearest to the decimal number they denote\<close>
  "parseFloat m =
     (case m of
        (ds, None) \<Rightarrow> round_to_double (nat_of_digits ds) 1
      | (ds, Some fs) \<Rightarrow> round_to_double (nat_of_digits (ds @ fs)) (10 ^ length fs))"




definition score_try_block :: "string \<Rightarrow> thrown + string \<times> number" where
  \<comment> \<open>the \<open>try\<close> block: two matches, \<open>parseFloat\<close> and \<open>trim\<close>, none of which throws on a
      string\<close>
  "score_try_block text =
     (let scoreMatch = find_total_score text;
          fullReason = find_full_reason text;
          score = (case scoreMatch of Some m \<Rightarrow> parseFloat m | None \<Rightarrow> Finite 0);
          reason = (if fullReason then trim text else ''N/A'')
      in Inr (reason, score))"

definition parse_score_response :: "string \<Rightarrow> string \<times> number" where
  \<comment> \<open>lines 144 to 158: \<open>(reason, score)\<close> from the text of the model's response\<close>
  "parse_score_response text =
     (case score_try_block text of
        Inr r \<Rightarrow> r
      | Inl err \<Rightarrow> (''Parse failed'', Finite 0))"

definition scoreLeadWithGemini :: "thrown + string \<Rightarrow> thrown + string \<times> number" where
  \<comment> \<open>the argument is what the model call gives: a rejection, or the response text\<close>
  "scoreLeadWithGemini modelCall =
     (case modelCall of
        Inl e \<Rightarrow> Inl e
      | Inr text \<Rightarrow> Inr (parse_score_response text))"

section \<open>FieldExtractor: the parse of \<open>extractCrmLeadFieldsWithLLM\<close>\<close>

definition first_json :: "string \<Rightarrow> string option" where
  \<comment> \<open>\<open>text.match(/\{[\s\S]*?\}/)\<close>: from the first opening brace to the first closing
      brace after it\<close>
  "first_json text =
     (case dropWhile (\<lambda>c. c \<noteq> CHR ''{'') text of
        [] \<Rightarrow> None
      | b # r \<Rightarrow>
          if CHR ''}'' \<in> set r then Some (b # takeWhile (\<lambda>c. c \<noteq> CHR ''}'') r @ ''}'')
          else None)"

definition crm_try_block :: "string \<Rightarrow> thrown + json" where
  "crm_try_block text =
     (case first_json text of
        Some m \<Rightarrow>
          (case JSON_parse m of
             Some v \<Rightarrow> Inr v
           | None \<Rightarrow> Inl (ErrorObj ''SyntaxError''))
      | None \<Rightarrow> Inr (JObject []))"

definition parse_crm_fields :: "string \<Rightarrow> thrown + json" where
  \<comment> \<open>lines 203 to 213: the \<open>try\<close> block and its \<open>catch\<close>, which returns \<open>{}\<close>\<close>
  "parse_crm_fields text =
     (case crm_try_block text of
        Inr v \<Rightarrow> Inr v
      | Inl err \<Rightarrow> Inr (JObject []))"

definition extractCrmLeadFieldsWithLLM :: "thrown + string \<Rightarrow> thrown + json" where
  "extractCrmLeadFieldsWithLLM modelCall =
     (case modelCall of
        Inl e \<Rightarrow> Inl e
      | Inr text \<Rightarrow> parse_crm_fields text)"

section \<open>EnrichmentSession: \<open>processLeadEnrichment\<close>\<close>

record EnrichmentResult =
  question :: string
  answer :: string

text \<open>
  What the program does to the outside, in order: a chat request (question, chat id and
  the history it carries), an awaited timer (milliseconds), the two model calls.
\<close>

datatype event =
    ChatRequest string string "(string \<times> string) list"
  | Sleep nat
  | ScoringCall
  | ExtractionCall

text \<open>
  The outside of one lead: the chat id that \<open>crypto.randomBytes(20)\<close> gives, the backend's
  response to the chat request of each question (by position in the question list), and
  what the scoring call and the extraction call give (a rejection or the response text).
\<close>

record lead_env =
  new_chatId :: string
  chat_api :: "nat \<Rightarrow> chat_response"
  scoring_model :: "thrown + string"
  extraction_model :: "thrown + string"

record session =
  enrichmentResults :: "EnrichmentResult list"
  chatHistory :: "(string \<times> string) list"
  events :: "event list"

definition ask_question ::
  "(string \<Rightarrow> string) \<Rightarrow> chat_response \<Rightarrow> string \<Rightarrow> string \<Rightarrow> session \<Rightarrow> session" where
  \<comment> \<open>the body of the loop for one question, lines 540 to 566, given the backend's
      response to its request\<close>
  "ask_question fmt resp cid q st =
     (case sendMessage fmt resp of
        Inr a \<Rightarrow>
          \<lparr>enrichmentResults = enrichmentResults st @ [\<lparr>question = q, answer = a\<rparr>],
           chatHistory = chatHistory st @ [(''human'', q), (''assistant'', a)],
           events = events st @ [ChatRequest q cid (chatHistory st), Sleep 2000]\<rparr>
      | Inl error \<Rightarrow>
          \<lparr>enrichmentResults =
             enrichmentResults st @ [\<lparr>question = q, answer = ''Error: '' @ toErrorString error\<rparr>],
           chatHistory = chatHistory st,
           events = events st @ [ChatRequest q cid (chatHistory st)]\<rparr>)"

fun ask_questions ::
  "(string \<Rightarrow> string) \<Rightarrow> (nat \<Rightarrow> chat_response) \<Rightarrow> string \<Rightarrow> nat \<Rightarrow> string list \<Rightarrow> session \<Rightarrow> session" where
  \<comment> \<open>\<open>for (const question of enrichmentQuestions)\<close>, from the question at position \<open>i\<close>\<close>
  "ask_questions fmt api cid i [] st = st"
| "ask_questions fmt api cid i (q # qs) st =
     ask_questions fmt api cid (Suc i) qs (ask_question fmt (api i) cid q st)"

record outcome =
  email :: string
  company :: string
  chatId :: string
  enrichmentData :: "EnrichmentResult list"
  error :: "string option"
  score :: "number option"
  reason :: "string option"
  structuredFields :: "json option"

definition catch_outcome :: "string \<Rightarrow> thrown \<Rightarrow> outcome" where
  \<comment> \<open>the outer \<open>catch\<close> of \<open>processLeadEnrichment\<close>, lines 596 to 606\<close>
  "catch_outcome em err =
     \<lparr>email = em,
      company =
        (case split_on (CHR ''@'') em of
           local # domain # rest \<Rightarrow>
             if first_piece (CHR ''.'') domain = [] then ''unknown'' else first_piece (CHR ''.'') domain
         | _ \<Rightarrow> ''unknown''),
      chatId = [],
      enrichmentData = [],
      error = Some (toErrorString err),
      score = None,
      reason = None,
      structuredFields = Some (JObject [])\<rparr>"

definition run_session :: "(string \<Rightarrow> string) \<Rightarrow> lead_env \<Rightarrow> string \<Rightarrow> string \<Rightarrow> session" where
  \<comment> \<open>lines 529 to 567: the question list and the loop over it\<close>
  "run_session fmt env companyName domain =
     ask_questions fmt (chat_api env) (new_chatId env) 0 (generateEnrichmentQuestions companyName domain)
       \<lparr>enrichmentResults = [], chatHistory = [], events = []\<rparr>"

definition processLeadEnrichment :: "(string \<Rightarrow> string) \<Rightarrow> lead_env \<Rightarrow> string \<Rightarrow> outcome \<times> event list" where
  "processLeadEnrichment fmt env em =
     (case extractCompanyInfo em of
        Inl err \<Rightarrow> (catch_outcome em err, [])
      | Inr (companyName, domain) \<Rightarrow>
          (let st = run_session fmt env companyName domain
           in case scoreLeadWithGemini (scoring_model env) of
                Inl err \<Rightarrow> (catch_outcome em err, events st @ [ScoringCall])
              | Inr (rsn, sc) \<Rightarrow>
                  (case extractCrmLeadFieldsWithLLM (extraction_model env) of
                     Inl err \<Rightarrow> (catch_outcome em err, events st @ [ScoringCall, ExtractionCall])
                   | Inr extractedStructuredFields \<Rightarrow>
                       (\<lparr>email = em,
                         company = companyName,
                         chatId = new_chatId env,
                         enrichmentData = enrichmentResults st,
                         error = None,
                         score = Some sc,
                         reason = Some rsn,
                         structuredFields = Some extractedStructuredFields\<rparr>,
                        events st @ [ScoringCall, ExtractionCall]))))"

section \<open>EnrichmentOrchestrator: \<open>enrichLeads\<close>\<close>

record LeadEnrichmentResponse =
  success :: bool
  results :: "outcome list"
  errors :: "string list"

text \<open>
  The outside of a batch: whether \<open>configureModelProviders\<close> throws (it resolves the model
  pair from the backend's model list; the pair only travels inside the request bodies),
  and the outside of each lead, by position among the valid emails.
\<close>

record batch_env =
  configuration :: "thrown option"
  lead :: "nat \<Rightarrow> lead_env"

definition validEmails :: "string list \<Rightarrow> string list" where
  "validEmails emails = filter (\<lambda>e. CHR ''@'' \<in> set e \<and> length e > 0) (map trim emails)"

fun indexOf :: "'a list \<Rightarrow> 'a \<Rightarrow> nat" where
  \<comment> \<open>\<open>xs.indexOf(x)\<close> for an \<open>x\<close> that occurs in \<open>xs\<close>\<close>
  "indexOf [] x = 0"
| "indexOf (y # ys) x = (if y = x then 0 else Suc (indexOf ys x))"

fun process_emails ::
  "(string \<Rightarrow> string) \<Rightarrow> (nat \<Rightarrow> lead_env) \<Rightarrow> string list \<Rightarrow> nat \<Rightarrow> string list \<Rightarrow>
     outcome list \<times> string list \<times> event list \<Rightarrow> outcome list \<times> string list \<times> event list" where
  \<comment> \<open>\<open>for (const email of validEmails)\<close>, from position \<open>i\<close>; \<open>processLeadEnrichment\<close>
      catches whatever it meets, so the \<open>catch\<close> of this loop is never entered\<close>
  "process_emails fmt envs valid i [] acc = acc"
| "process_emails fmt envs valid i (em # ems) (rs, errs, evs) =
     (let (result, evs1) = processLeadEnrichment fmt (envs i) em;
          errs1 = (case error result of
                     None \<Rightarrow> errs
                   | Some e \<Rightarrow> if e = [] then errs else errs @ [''Failed '' @ em @ '': '' @ e]);
          evs2 = (if indexOf valid em < length valid - 1 then [Sleep 3000] else [])
      in process_emails fmt envs valid (Suc i) ems (rs @ [result], errs1, evs @ evs1 @ evs2))"

definition enrichLeads ::
  "(string \<Rightarrow> string) \<Rightarrow> batch_env \<Rightarrow> string list \<Rightarrow> LeadEnrichmentResponse \<times> event list" where
  "enrichLeads fmt env emails =
     (if length (validEmails emails) = 0 then
        (\<lparr>success = False, results = [], errors = [''No valid email addresses provided'']\<rparr>, [])
      else
        (case configuration env of
           Some err \<Rightarrow>
             (\<lparr>success = False, results = [],
               errors = [''Configuration error: '' @
                           (case err of ErrorObj m \<Rightarrow> m | _ \<Rightarrow> ''Unknown error'')]\<rparr>, [])
         | None \<Rightarrow>
             (case process_emails fmt (lead env) (validEmails emails) 0 (validEmails emails) ([], [], []) of
                (rs, errs, evs) \<Rightarrow>
                  (\<lparr>success = (length errs = 0), results = rs, errors = errs\<rparr>, evs))))"

section \<open>The request boundary: the emails of \<open>validateRequest\<close>\<close>

definition toLowerCase :: "string \<Rightarrow> string" where
  "toLowerCase s =
     map (\<lambda>c. let n = (of_char c :: nat)
               in if (65 \<le> n \<and> n \<le> 90) \<or> (192 \<le> n \<and> n \<le> 222 \<and> n \<noteq> 215) then char_of (n + 32) else c) s"

fun dedupe :: "'a list \<Rightarrow> 'a list" where
  \<comment> \<open>\<open>Array.from(new Set(xs))\<close>: first occurrences, in order\<close>
  "dedupe [] = []"
| "dedupe (x # xs) = x # dedupe (filter (\<lambda>y. y \<noteq> x) xs)"

definition emailRegex :: "string \<Rightarrow> bool" where
  \<comment> \<open>\<open>/^[^\s@]+@[^\s@]+\.[^\s@]+$/\<close>: one \<open>@\<close>, no white space, a non-empty local part, and
      a dot inside the rest with something on both sides\<close>
  "emailRegex e =
     (case split_on (CHR ''@'') e of
        [l, d] \<Rightarrow>
          l \<noteq> [] \<and> \<not> list_ex js_whitespace e \<and> CHR ''.'' \<in> set (butlast (tl d))
      | _ \<Rightarrow> False)"

definition MAX_EMAILS :: nat where
  "MAX_EMAILS = 50"

definition validateRequest_emails :: "json list \<Rightarrow> string + string list" where
  \<comment> \<open>lines 47 to 78 of the route, on the elements of \<open>body.emails\<close>: the error message of a
      rejected request, or the normalized emails that go on to \<open>enrichLeads\<close>\<close>
  "validateRequest_emails emails =
     (if length emails = 0 then Inl ''At least one email is required''
      else
        (let normalizedEmails =
               dedupe (filter (\<lambda>e. e \<noteq> [])
                 (map (\<lambda>e. toLowerCase (trim e))
                   (concat (map (\<lambda>v. case v of JString e \<Rightarrow> [e] | _ \<Rightarrow> []) emails))));
             invalidEmails = filter (\<lambda>e. \<not> emailRegex e) normalizedEmails
         in if length normalizedEmails = 0 then Inl ''No valid emails after normalization''
            else if length normalizedEmails > MAX_EMAILS then
              Inl (''Too many emails. Max allowed is '' @ show_nat MAX_EMAILS)
            else if length invalidEmails > 0 then
              Inl (''Invalid email format(s): '' @ join '', '' invalidEmails)
            else Inr normalizedEmails))"

section \<open>Example environments\<close>

definition failing_backend :: lead_env where
  \<comment> \<open>every chat request fails at the transport; the two model calls answer\<close>
  "failing_backend =
     \<lparr>new_chatId = ''c0ffee'',
      chat_api = (\<lambda>i. FetchRejected (ErrorObj ''fetch failed'')),
      scoring_model = Inr ''Total Score: 0/90'',
      extraction_model = Inr ''{}''\<rparr>"

definition scoring_down :: lead_env where
  \<comment> \<open>as \<open>failing_backend\<close>, and the scoring call rejects\<close>
  "scoring_down = failing_backend\<lparr>scoring_model := Inl (ErrorObj ''quota exceeded'')\<rparr>"

definition quiet_batch :: batch_env where
  "quiet_batch = \<lparr>configuration = None, lead = (\<lambda>i. failing_backend)\<rparr>"

section \<open>Facts about the question loop\<close>

lemma split_on_not_Nil: "split_on sep s \<noteq> []"
  by (induction s) (auto split: list.splits)

lemma split_on_two_pieces:
  "sep \<in> set s \<Longrightarrow> \<exists>l d r. split_on sep s = l # d # r"
proof (induction s)
  case Nil
  then show ?case by simp
next
  case (Cons c cs)
  show ?case
  proof (cases "c = sep")
    case True
    obtain p ps where "split_on sep cs = p # ps"
      using split_on_not_Nil [of sep cs] by (cases "split_on sep cs") auto
    with True show ?thesis by simp
  next
    case False
    with Cons.prems have "sep \<in> set cs" by simp
    then obtain l d r where "split_on sep cs = l # d # r"
      using Cons.IH by blast
    with False show ?thesis by simp
  qed
qed

lemma extractCompanyInfo_at:
  assumes "CHR ''@'' \<in> set em"
  shows "\<exists>c d. extractCompanyInfo em = Inr (c, d)"
proof -
  obtain l d r where "split_on (CHR ''@'') em = l # d # r"
    using split_on_two_pieces [OF assms] by blast
  then show ?thesis by (simp add: extractCompanyInfo_def)
qed

lemma length_generateEnrichmentQuestions:
  "length (generateEnrichmentQuestions c d) = 11"
  by (simp add: generateEnrichmentQuestions_def)

lemma ask_question_results:
  "enrichmentResults (ask_question fmt resp cid q st) =
     enrichmentResults st @
       [\<lparr>question = q,
         answer = (case sendMessage fmt resp of Inr a \<Rightarrow> a | Inl e \<Rightarrow> ''Error: '' @ toErrorString e)\<rparr>]"
  by (simp add: ask_question_def split: sum.splits)

lemma ask_questions_results:
  "enrichmentResults (ask_questions fmt api cid i qs st) =
     enrichmentResults st @
       map (\<lambda>k. \<lparr>question = qs ! k,
                  answer = (case sendMessage fmt (api (i + k)) of
                              Inr a \<Rightarrow> a
                            | Inl e \<Rightarrow> ''Error: '' @ toErrorString e)\<rparr>) [0..<length qs]"
proof (induction qs arbitrary: i st)
  case Nil
  then show ?case by simp
next
  case (Cons q qs)
  have shift: "[0..<length (q # qs)] = 0 # map Suc [0..<length qs]"
    by (simp add: upt_conv_Cons map_Suc_upt del: upt_Suc)
  show ?case
    unfolding shift by (simp add: Cons.IH ask_question_results comp_def)
qed

lemma run_session_length:
  "length (enrichmentResults (run_session fmt env c d)) = 11"
  by (simp add: run_session_def ask_questions_results length_generateEnrichmentQuestions)

section \<open>Facts about the matches\<close>

lemmas eval_defs = JSON_parse_def json_ws_def digit_def trim_def js_whitespace_def number_char_def Let_def

lemma starts_with_append: "starts_with p s \<Longrightarrow> \<exists>b. s = p @ b"
  by (induction p s rule: starts_with.induct) auto

lemma starts_with_prefix: "starts_with p (p @ b)"
  by (induction p) auto

lemma starts_with_before:
  "starts_with p (a @ t # b) \<Longrightarrow> t \<notin> set p \<Longrightarrow> starts_with p a"
proof (induction p arbitrary: a)
  case Nil
  then show ?case by simp
next
  case (Cons x p)
  then show ?case by (cases a) auto
qed

lemma match_total_score_starts:
  "match_total_score s \<noteq> None \<Longrightarrow> starts_with ''Total Score:'' s"
  by (simp add: match_total_score_def split: if_splits)

lemma find_total_score_label:
  "find_total_score rsp = Some m \<Longrightarrow> \<exists>a b. rsp = a @ ''Total Score:'' @ b"
proof (induction rsp)
  case Nil
  then show ?case by simp
next
  case (Cons c cs)
  show ?case
  proof (cases "match_total_score (c # cs)")
    case None
    with Cons.prems have "find_total_score cs = Some m" by simp
    then obtain a b where "cs = a @ ''Total Score:'' @ b"
      using Cons.IH by blast
    then have "c # cs = (c # a) @ ''Total Score:'' @ b" by simp
    then show ?thesis by blast
  next
    case (Some m')
    then have "starts_with ''Total Score:'' (c # cs)"
      by (simp add: match_total_score_def split: if_splits)
    then obtain b where "c # cs = ''Total Score:'' @ b"
      using starts_with_append by blast
    then have "c # cs = [] @ ''Total Score:'' @ b" by simp
    then show ?thesis by blast
  qed
qed

lemma find_full_reason_label:
  "find_full_reason rsp \<Longrightarrow> \<exists>a b. rsp = a @ ''Revenue Score:'' @ b"
proof (induction rsp)
  case Nil
  then show ?case by simp
next
  case (Cons c cs)
  show ?case
  proof (cases "starts_with ''Revenue Score:'' (c # cs)")
    case True
    then obtain b where "c # cs = ''Revenue Score:'' @ b"
      using starts_with_append by blast
    then have "c # cs = [] @ ''Revenue Score:'' @ b" by simp
    then show ?thesis by blast
  next
    case False
    with Cons.prems have "find_full_reason cs" by auto
    then obtain a b where "cs = a @ ''Revenue Score:'' @ b"
      using Cons.IH by blast
    then have "c # cs = (c # a) @ ''Revenue Score:'' @ b" by simp
    then show ?thesis by blast
  qed
qed

lemma find_total_score_skip:
  assumes "\<not> (\<exists>a b. pre = a @ ''Total Score:'' @ b)"
  shows "find_total_score (pre @ ''Total Score:'' @ rest) = find_total_score (''Total Score:'' @ rest)"
  using assms
proof (induction pre)
  case Nil
  then show ?case by simp
next
  case (Cons c pre)
  have no_tail: "\<not> (\<exists>a b. pre = a @ ''Total Score:'' @ b)"
  proof
    assume "\<exists>a b. pre = a @ ''Total Score:'' @ b"
    then obtain a b where "pre = a @ ''Total Score:'' @ b" by blast
    then have "c # pre = (c # a) @ ''Total Score:'' @ b" by simp
    with Cons.prems show False by blast
  qed
  have nsw: "\<not> starts_with ''Total Score:'' ((c # pre) @ ''Total Score:'' @ rest)"
  proof
    assume sw: "starts_with ''Total Score:'' ((c # pre) @ ''Total Score:'' @ rest)"
    then have c: "c = CHR ''T''"
      by auto
    from sw have "starts_with ''otal Score:'' (pre @ CHR ''T'' # ''otal Score:'' @ rest)"
      by auto
    then have "starts_with ''otal Score:'' pre"
      by (rule starts_with_before) simp
    with c have "starts_with ''Total Score:'' (c # pre)" by simp
    then obtain b where "c # pre = [] @ ''Total Score:'' @ b"
      using starts_with_append by fastforce
    with Cons.prems show False by blast
  qed
  have "match_total_score ((c # pre) @ ''Total Score:'' @ rest) = None"
  proof (rule ccontr)
    assume "match_total_score ((c # pre) @ ''Total Score:'' @ rest) \<noteq> None"
    then have "starts_with ''Total Score:'' ((c # pre) @ ''Total Score:'' @ rest)"
      by (rule match_total_score_starts)
    with nsw show False by blast
  qed
  then show ?case
    using Cons.IH [OF no_tail] by simp
qed

lemma find_total_score_73:
  "find_total_score (''Total Score: 73/90'' @ rest) = Some (''73'', None)"
  by (simp add: match_total_score_def match_fraction_def eval_defs)



text \<open>
  The recogniser of the reason pattern against the pattern's reading: the text holds
  \<open>Revenue Score:\<close>, later \<open>Reason:\<close>, and what lies between them has a line feed and
  no carriage return (\<open>.\<close> stops at line terminators, and each repetition of the group
  starts with a line feed).
\<close>

lemma starts_with_iff: "starts_with p s \<longleftrightarrow> (\<exists>b. s = p @ b)"
  using starts_with_append starts_with_prefix by blast

lemma reason_follows_iff:
  "reason_follows seen s \<longleftrightarrow>
     (\<exists>w b. s = w @ ''Reason:'' @ b \<and> (seen \<or> LF \<in> set w) \<and> CHR 0x0D \<notin> set w)"
proof (induction s arbitrary: seen)
  case Nil
  then show ?case by simp
next
  case (Cons c cs)
  have "(\<exists>w b. c # cs = w @ ''Reason:'' @ b \<and> (seen \<or> LF \<in> set w) \<and> CHR 0x0D \<notin> set w) \<longleftrightarrow>
        (seen \<and> (\<exists>b. c # cs = ''Reason:'' @ b)) \<or>
        (c \<noteq> CHR 0x0D \<and>
         (\<exists>w b. cs = w @ ''Reason:'' @ b \<and> ((seen \<or> c = LF) \<or> LF \<in> set w) \<and> CHR 0x0D \<notin> set w))"
    (is "?L \<longleftrightarrow> ?A \<or> ?B")
  proof
    assume ?L
    then obtain w b where w: "c # cs = w @ ''Reason:'' @ b" "seen \<or> LF \<in> set w" "CHR 0x0D \<notin> set w"
      by blast
    show "?A \<or> ?B"
    proof (cases w)
      case Nil
      with w show ?thesis by auto
    next
      case (Cons x w')
      with w have "x = c" "cs = w' @ ''Reason:'' @ b" by simp_all
      with w Cons have ?B by auto
      then show ?thesis ..
    qed
  next
    assume "?A \<or> ?B"
    then show ?L
    proof
      assume ?A
      then obtain b where "seen" "c # cs = [] @ ''Reason:'' @ b" by auto
      then show ?L by (metis empty_iff empty_set)
    next
      assume ?B
      then obtain w b where "c \<noteq> CHR 0x0D" "cs = w @ ''Reason:'' @ b"
        "(seen \<or> c = LF) \<or> LF \<in> set w" "CHR 0x0D \<notin> set w"
        by blast
      then have "c # cs = (c # w) @ ''Reason:'' @ b \<and> (seen \<or> LF \<in> set (c # w)) \<and> CHR 0x0D \<notin> set (c # w)"
        by auto
      then show ?L by blast
    qed
  qed
  moreover have "reason_follows seen (c # cs) \<longleftrightarrow>
      (seen \<and> starts_with ''Reason:'' (c # cs)) \<or> (c \<noteq> CHR 0x0D \<and> reason_follows (seen \<or> c = LF) cs)"
    by (rule reason_follows.simps)
  ultimately show ?case
    unfolding Cons.IH starts_with_iff by blast
qed

lemma find_full_reason_iff:
  "find_full_reason s \<longleftrightarrow>
     (\<exists>a w b. s = a @ ''Revenue Score:'' @ w @ ''Reason:'' @ b \<and> LF \<in> set w \<and> CHR 0x0D \<notin> set w)"
proof (induction s)
  case Nil
  then show ?case by simp
next
  case (Cons c cs)
  have here: "starts_with ''Revenue Score:'' (c # cs) \<and> reason_follows False (drop 14 (c # cs)) \<longleftrightarrow>
      (\<exists>w b. c # cs = ''Revenue Score:'' @ w @ ''Reason:'' @ b \<and> LF \<in> set w \<and> CHR 0x0D \<notin> set w)"
    (is "?H \<longleftrightarrow> ?R")
  proof
    assume ?H
    then obtain r where r: "c # cs = ''Revenue Score:'' @ r"
      unfolding starts_with_iff by blast
    then have "drop 14 (c # cs) = r" by simp
    with \<open>?H\<close> have "reason_follows False r" by metis
    then obtain w b where "r = w @ ''Reason:'' @ b" "LF \<in> set w" "CHR 0x0D \<notin> set w"
      unfolding reason_follows_iff by blast
    with r show ?R by blast
  next
    assume ?R
    then obtain w b where w: "c # cs = ''Revenue Score:'' @ w @ ''Reason:'' @ b" "LF \<in> set w" "CHR 0x0D \<notin> set w"
      by blast
    then have "starts_with ''Revenue Score:'' (c # cs)"
      unfolding starts_with_iff by blast
    moreover from w have "drop 14 (c # cs) = w @ ''Reason:'' @ b" by simp
    then have "reason_follows False (drop 14 (c # cs))"
      unfolding reason_follows_iff using w by blast
    ultimately show ?H by blast
  qed
  have "(\<exists>a w b. c # cs = a @ ''Revenue Score:'' @ w @ ''Reason:'' @ b \<and> LF \<in> set w \<and> CHR 0x0D \<notin> set w) \<longleftrightarrow>
        (\<exists>w b. c # cs = ''Revenue Score:'' @ w @ ''Reason:'' @ b \<and> LF \<in> set w \<and> CHR 0x0D \<notin> set w) \<or>
        (\<exists>a w b. cs = a @ ''Revenue Score:'' @ w @ ''Reason:'' @ b \<and> LF \<in> set w \<and> CHR 0x0D \<notin> set w)"
    (is "?L \<longleftrightarrow> ?A \<or> ?B")
  proof
    assume ?L
    then obtain a w b where w: "c # cs = a @ ''Revenue Score:'' @ w @ ''Reason:'' @ b" "LF \<in> set w" "CHR 0x0D \<notin> set w"
      by blast
    show "?A \<or> ?B"
    proof (cases a)
      case Nil
      with w have ?A by auto
      then show ?thesis ..
    next
      case (Cons x a')
      with w have "cs = a' @ ''Revenue Score:'' @ w @ ''Reason:'' @ b" by simp
      with w have ?B by blast
      then show ?thesis ..
    qed
  next
    assume "?A \<or> ?B"
    then show ?L
    proof
      assume ?A
      then obtain w b where "c # cs = [] @ ''Revenue Score:'' @ w @ ''Reason:'' @ b" "LF \<in> set w" "CHR 0x0D \<notin> set w"
        by auto
      then show ?L by blast
    next
      assume ?B
      then obtain a w b where "cs = a @ ''Revenue Score:'' @ w @ ''Reason:'' @ b" "LF \<in> set w" "CHR 0x0D \<notin> set w"
        by blast
      then have "c # cs = (c # a) @ ''Revenue Score:'' @ w @ ''Reason:'' @ b" by simp
      with \<open>LF \<in> set w\<close> \<open>CHR 0x0D \<notin> set w\<close> show ?L by blast
    qed
  qed
  moreover have "find_full_reason (c # cs) \<longleftrightarrow>
      (starts_with ''Revenue Score:'' (c # cs) \<and> reason_follows False (drop 14 (c # cs))) \<or> find_full_reason cs"
    by (rule find_full_reason.simps)
  ultimately show ?case
    unfolding here Cons.IH by blast
qed



















lemmas number_defs = parseFloat_def nat_of_digits_def round_to_double_def floor_log2_def pow2_le_def
  round_half_even_def bit_length.simps

lemma absent_char_absent_piece:
  assumes "c \<in> set p" and "c \<notin> set s"
  shows "\<nexists>a b. s = a @ p @ b"
proof
  assume "\<exists>a b. s = a @ p @ b"
  then obtain a b where "s = a @ p @ b" by blast
  then have "set s = set (a @ p @ b)" by (rule arg_cong)
  with assms show False by simp
qed

section \<open>Facts about the stream loop and the batch loop\<close>

lemma read_loop_never_throws:
  "\<exists>a. read_loop fmt chunks None pc rm = Inr a"
proof (induction chunks arbitrary: pc rm)
  case Nil
  then show ?case by simp
next
  case (Cons chunk chunks)
  obtain how received where p: "process_lines fmt (split_on LF (pc @ chunk)) rm = (how, received)"
    by (cases "process_lines fmt (split_on LF (pc @ chunk)) rm")
  show ?case
  proof (cases how)
    case Normal
    with p Cons.IH [of "[]" received] show ?thesis by (simp add: Let_def)
  next
    case (Return answer)
    with p show ?thesis by (simp add: Let_def)
  next
    case (Throw error)
    with p Cons.IH [of "pc @ chunk" received] show ?thesis by (simp add: Let_def)
  qed
qed

lemma email_processLeadEnrichment:
  "email (fst (processLeadEnrichment fmt env em)) = em"
  by (simp add: processLeadEnrichment_def catch_outcome_def Let_def split: sum.splits prod.splits)

lemma process_emails_emails:
  "map email (fst (process_emails fmt envs valid i ems (rs, errs, evs))) = map email rs @ ems"
proof (induction ems arbitrary: i rs errs evs)
  case Nil
  then show ?case by simp
next
  case (Cons em ems)
  obtain result evs1 where r: "processLeadEnrichment fmt (envs i) em = (result, evs1)"
    by (cases "processLeadEnrichment fmt (envs i) em")
  then have "email result = em"
    using email_processLeadEnrichment [of fmt "envs i" em] by simp
  with r show ?case
    by (simp add: Cons.IH Let_def)
qed

lemma enrichLeads_emails:
  assumes "configuration env = None"
  shows "map email (results (fst (enrichLeads fmt env emails))) = validEmails emails"
proof (cases "validEmails emails = []")
  case True
  then show ?thesis by (simp add: enrichLeads_def)
next
  case False
  obtain rs errs evs where p:
    "process_emails fmt (lead env) (validEmails emails) 0 (validEmails emails) ([], [], []) = (rs, errs, evs)"
    by (cases "process_emails fmt (lead env) (validEmails emails) 0 (validEmails emails) ([], [], [])")
  then have "map email rs = validEmails emails"
    using process_emails_emails [of fmt "lead env" "validEmails emails" 0 "validEmails emails" "[]" "[]" "[]"]
    by simp
  with False assms p show ?thesis
    by (simp add: enrichLeads_def)
qed

lemma valid_example:
  "validEmails ['' A@b.com '', ''bad-email'', ''a@b.com''] = [''A@b.com'', ''a@b.com'']"
  by (simp add: validEmails_def trim_def js_whitespace_def)

lemma validate_example:
  "validateRequest_emails [JString '' A@b.com '', JString ''bad-email'', JString ''a@b.com''] =
     Inl ''Invalid email format(s): bad-email''"
  by code_simp



section \<open>The stream protocol\<close>

text \<open>
  C1. A record of type \<open>error\<close> should make \<open>sendMessage\<close> fail with the record's
  payload. The \<open>throw\<close> of line 446 sits inside the \<open>try\<close> whose \<open>catch\<close> continues
  the read loop, so the call returns what it accumulated: on the stream that delivers
  only the record with payload \<open>boom\<close> it returns the empty string, the session records
  the empty answer for the question, and no stream that ends normally makes the call
  fail.
\<close>

theorem error_record_is_swallowed:
  \<open>sendMessage fmt (Response 200 ''OK'' (Some (Stream [''{"type":"error","data":"boom"}'' @ [LF]] None))) = Inr [] \<and>
   enrichmentResults
     (ask_question fmt (Response 200 ''OK'' (Some (Stream [''{"type":"error","data":"boom"}'' @ [LF]] None))) cid q st) =
     enrichmentResults st @ [\<lparr>question = q, answer = []\<rparr>] \<and>
   (\<exists>a. sendMessage fmt (Response 200 ''OK'' (Some (Stream chunks None))) = Inr a)\<close>
proof -
  have boom: \<open>sendMessage fmt (Response 200 ''OK'' (Some (Stream [''{"type":"error","data":"boom"}'' @ [LF]] None))) = Inr []\<close>
    by (simp add: eval_defs)
  have "\<exists>a. sendMessage fmt (Response 200 ''OK'' (Some (Stream chunks None))) = Inr a"
    using read_loop_never_throws [of fmt chunks "[]" "[]"] by simp
  with boom show ?thesis
    by (simp add: ask_question_def)
qed

text \<open>
  C2. The three records of the answer \<open>Hello\<close>, each on its own line. Delivered in one
  chunk they give \<open>Hello\<close>. Cut inside the second record, the first pass appends
  \<open>Hel\<close> and stops at the incomplete line, the buffer is kept whole, and the second
  pass runs over the first record again: the call returns \<open>HelHello\<close>.
\<close>

theorem split_record_is_processed_twice:
  \<open>sendMessage fmt (Response 200 ''OK'' (Some (Stream
      [''{"type":"message","data":"Hel"}'' @ [LF] @ ''{"type":"message","data":"lo"}'' @ [LF] @
       ''{"type":"messageEnd"}'' @ [LF]] None))) = Inr ''Hello'' \<and>
   sendMessage fmt (Response 200 ''OK'' (Some (Stream
      [''{"type":"message","data":"Hel"}'' @ [LF] @ ''{"type":"mess'',
       ''age","data":"lo"}'' @ [LF] @ ''{"type":"messageEnd"}'' @ [LF]] None))) = Inr ''HelHello'' \<and>
   (''{"type":"message","data":"Hel"}'' @ [LF] @ ''{"type":"mess'') @
   (''age","data":"lo"}'' @ [LF] @ ''{"type":"messageEnd"}'' @ [LF]) =
     ''{"type":"message","data":"Hel"}'' @ [LF] @ ''{"type":"message","data":"lo"}'' @ [LF] @
       ''{"type":"messageEnd"}'' @ [LF]\<close>
  by (simp add: eval_defs)

section \<open>The parse of the score and of the fields\<close>




text \<open>
  C8, as amended. The parse of the scoring response never throws. A response that
  contains neither the label \<open>Total Score:\<close> nor the label \<open>Revenue Score:\<close> gives score 0
  and reason \<open>N/A\<close>. The response \<open>Total Score: 73/90\<close>, line feed, \<open>Reason: strong revenue\<close>
  gives score 73, and so does every response that contains it with no \<open>Total Score:\<close>
  before it: the leftmost match decides the score.
\<close>

theorem score_parse_never_throws:
  "(\<exists>r s. scoreLeadWithGemini (Inr rsp) = Inr (r, s)) \<and>
   ((\<nexists>a b. rsp = a @ ''Total Score:'' @ b) \<and> (\<nexists>a b. rsp = a @ ''Revenue Score:'' @ b) \<longrightarrow>
      scoreLeadWithGemini (Inr rsp) = Inr (''N/A'', Finite 0)) \<and>
   scoreLeadWithGemini (Inr (''Total Score: 73/90'' @ [LF] @ ''Reason: strong revenue'')) = Inr (''N/A'', Finite 73) \<and>
   ((\<nexists>a b. pre = a @ ''Total Score:'' @ b) \<longrightarrow>
      (\<exists>r. scoreLeadWithGemini (Inr (pre @ ''Total Score: 73/90'' @ [LF] @ ''Reason: strong revenue'' @ post)) =
             Inr (r, Finite 73)))"
proof -
  have total: "\<exists>r s. scoreLeadWithGemini (Inr rsp) = Inr (r, s)"
    by (simp add: scoreLeadWithGemini_def)
  have none: "(\<nexists>a b. rsp = a @ ''Total Score:'' @ b) \<and> (\<nexists>a b. rsp = a @ ''Revenue Score:'' @ b) \<longrightarrow>
      scoreLeadWithGemini (Inr rsp) = Inr (''N/A'', Finite 0)"
  proof
    assume a: "(\<nexists>a b. rsp = a @ ''Total Score:'' @ b) \<and> (\<nexists>a b. rsp = a @ ''Revenue Score:'' @ b)"
    have "find_total_score rsp = None"
      using a find_total_score_label [of rsp] by (cases "find_total_score rsp") auto
    moreover have "\<not> find_full_reason rsp"
      using a find_full_reason_label [of rsp] by blast
    ultimately show "scoreLeadWithGemini (Inr rsp) = Inr (''N/A'', Finite 0)"
      by (simp add: scoreLeadWithGemini_def parse_score_response_def score_try_block_def)
  qed
  have example: "scoreLeadWithGemini (Inr (''Total Score: 73/90'' @ [LF] @ ''Reason: strong revenue'')) = Inr (''N/A'', Finite 73)"
    by (simp add: scoreLeadWithGemini_def parse_score_response_def score_try_block_def
        match_total_score_def match_fraction_def number_defs eval_defs)
  have general: "(\<nexists>a b. pre = a @ ''Total Score:'' @ b) \<longrightarrow>
      (\<exists>r. scoreLeadWithGemini (Inr (pre @ ''Total Score: 73/90'' @ [LF] @ ''Reason: strong revenue'' @ post)) =
             Inr (r, Finite 73))"
  proof
    assume a: "\<nexists>a b. pre = a @ ''Total Score:'' @ b"
    have "find_total_score (pre @ ''Total Score:'' @ ('' 73/90'' @ [LF] @ ''Reason: strong revenue'' @ post)) =
          find_total_score (''Total Score:'' @ ('' 73/90'' @ [LF] @ ''Reason: strong revenue'' @ post))"
      using a by (rule find_total_score_skip)
    also have "\<dots> = Some (''73'', None)"
      using find_total_score_73 [of "[LF] @ ''Reason: strong revenue'' @ post"] by simp
    finally have "find_total_score (pre @ ''Total Score: 73/90'' @ [LF] @ ''Reason: strong revenue'' @ post)
        = Some (''73'', None)"
      by simp
    then show "\<exists>r. scoreLeadWithGemini (Inr (pre @ ''Total Score: 73/90'' @ [LF] @ ''Reason: strong revenue'' @ post)) =
             Inr (r, Finite 73)"
      by (simp add: scoreLeadWithGemini_def parse_score_response_def score_try_block_def
          number_defs Let_def)
  qed
  from total none example general show ?thesis by blast
qed

theorem score_parse_never_throws_witness:
  "scoreLeadWithGemini (Inr ''hello'') = Inr (''N/A'', Finite 0) \<and>
   (\<exists>r. scoreLeadWithGemini
          (Inr ((''Revenue Score: 15/20'' @ [LF]) @ ''Total Score: 73/90'' @ [LF] @ ''Reason: strong revenue'' @ []))
        = Inr (r, Finite 73))"
proof -
  have t: "\<nexists>a b. ''hello'' = a @ ''Total Score:'' @ b"
    by (rule absent_char_absent_piece [of "CHR ''T''"]) simp_all
  have r: "\<nexists>a b. ''hello'' = a @ ''Revenue Score:'' @ b"
    by (rule absent_char_absent_piece [of "CHR ''R''"]) simp_all
  have p: "\<nexists>a b. ''Revenue Score: 15/20'' @ [LF] = a @ ''Total Score:'' @ b"
    by (rule absent_char_absent_piece [of "CHR ''T''"]) simp_all
  show ?thesis
    using score_parse_never_throws [of "''hello''" "''Revenue Score: 15/20'' @ [LF]" "[]"] t r p
    by blast
qed


text \<open>C8, counterexample. A response that contains the example after an earlier total is
  scored by the earlier total, 5.\<close>

theorem earlier_total_decides:
  "scoreLeadWithGemini
     (Inr (''Total Score: 5/90'' @ [LF] @ ''Total Score: 73/90'' @ [LF] @ ''Reason: strong revenue'')) =
     Inr (''N/A'', Finite 5) \<and> (5 :: rat) \<noteq> 73"
  by (simp add: scoreLeadWithGemini_def parse_score_response_def score_try_block_def
        match_total_score_def match_fraction_def number_defs eval_defs)



section \<open>The session: results, history and pacing\<close>

lemma upt_shift: "[0..<Suc n] = 0 # map Suc [0..<n]"
  by (simp add: upt_conv_Cons map_Suc_upt del: upt_Suc)

lemma ask_question_history:
  "chatHistory (ask_question fmt resp cid q st) =
     chatHistory st @
       (case sendMessage fmt resp of Inr a \<Rightarrow> [(''human'', q), (''assistant'', a)] | Inl e \<Rightarrow> [])"
  by (simp add: ask_question_def split: sum.splits)

lemma ask_question_events:
  "events (ask_question fmt resp cid q st) =
     events st @ ChatRequest q cid (chatHistory st) #
       (case sendMessage fmt resp of Inr a \<Rightarrow> [Sleep 2000] | Inl e \<Rightarrow> [])"
  by (simp add: ask_question_def split: sum.splits)

lemma ask_questions_history:
  "chatHistory (ask_questions fmt api cid i qs st) =
     chatHistory st @
       concat (map (\<lambda>k. case sendMessage fmt (api (i + k)) of
                            Inr a \<Rightarrow> [(''human'', qs ! k), (''assistant'', a)]
                          | Inl e \<Rightarrow> []) [0..<length qs])"
proof (induction qs arbitrary: i st)
  case Nil
  then show ?case by simp
next
  case (Cons q qs)
  show ?case
    by (simp add: Cons.IH ask_question_history upt_shift comp_def del: upt_Suc cong: sum.case_cong)
qed

lemma ask_questions_sleeps:
  "length (filter (\<lambda>e. e = Sleep 2000) (events (ask_questions fmt api cid i qs st))) =
     length (filter (\<lambda>e. e = Sleep 2000) (events st)) +
     length (filter (\<lambda>k. \<not> isl (sendMessage fmt (api (i + k)))) [0..<length qs])"
proof (induction qs arbitrary: i st)
  case Nil
  then show ?case by simp
next
  case (Cons q qs)
  have "length (filter (\<lambda>k. \<not> isl (sendMessage fmt (api (i + k)))) [0..<length (q # qs)]) =
        (if isl (sendMessage fmt (api i)) then 0 else 1) +
        length (filter (\<lambda>k. \<not> isl (sendMessage fmt (api (Suc i + k)))) [0..<length qs])"
    by (simp add: upt_shift filter_map comp_def del: upt_Suc)
  moreover have "length (filter (\<lambda>e. e = Sleep 2000) (events (ask_question fmt (api i) cid q st))) =
        length (filter (\<lambda>e. e = Sleep 2000) (events st)) + (if isl (sendMessage fmt (api i)) then 0 else 1)"
    by (simp add: ask_question_events split: sum.splits)
  ultimately show ?case
    by (simp add: Cons.IH)
qed

text \<open>
  C3, as amended. A question whose \<open>sendMessage\<close> call succeeds adds exactly two entries
  to the conversation history, the question and its answer; a question whose call fails
  leaves the history as it was. Every request carries the history accumulated so far, so
  it holds the pairs of the earlier questions that succeeded and nothing of the failed
  ones.
\<close>

theorem history_grows_on_success_only:
  "chatHistory (ask_question fmt resp cid q st) =
     chatHistory st @
       (case sendMessage fmt resp of Inr a \<Rightarrow> [(''human'', q), (''assistant'', a)] | Inl e \<Rightarrow> []) \<and>
   (\<exists>rest. events (ask_question fmt resp cid q st) = events st @ ChatRequest q cid (chatHistory st) # rest) \<and>
   chatHistory (ask_questions fmt api cid i qs st) =
     chatHistory st @
       concat (map (\<lambda>k. case sendMessage fmt (api (i + k)) of
                            Inr a \<Rightarrow> [(''human'', qs ! k), (''assistant'', a)]
                          | Inl e \<Rightarrow> []) [0..<length qs])"
  by (simp add: ask_question_history ask_question_events ask_questions_history)


text \<open>C3, counterexample. With a backend whose every request fails, eleven questions are
  processed and the history stays empty.\<close>

theorem failed_questions_leave_no_history:
  "length (enrichmentResults (run_session id failing_backend ''b'' ''b.com'')) = 11 \<and>
   chatHistory (run_session id failing_backend ''b'' ''b.com'') = []"
  by (simp add: run_session_length)
     (simp add: run_session_def failing_backend_def generateEnrichmentQuestions_def ask_question_def)


text \<open>
  C6, as amended. After every question whose \<open>sendMessage\<close> call succeeds, the last one
  included, a timer of 2000 milliseconds is awaited before the loop goes on; after a
  question whose call fails there is none. A session awaits as many of these timers as
  it has questions that succeeded.
\<close>

theorem pacing_delay_follows_success_only:
  "events (ask_question fmt resp cid q st) =
     events st @ ChatRequest q cid (chatHistory st) #
       (case sendMessage fmt resp of Inr a \<Rightarrow> [Sleep 2000] | Inl e \<Rightarrow> []) \<and>
   length (filter (\<lambda>e. e = Sleep 2000) (events (run_session fmt env c d))) =
     length (filter (\<lambda>k. \<not> isl (sendMessage fmt (chat_api env k))) [0..<11])"
  by (simp add: ask_question_events run_session_def ask_questions_sleeps
      length_generateEnrichmentQuestions del: upt_Suc)


text \<open>C6, counterexample. With a backend whose every request fails, the eleven requests
  follow one another with no timer in between.\<close>

theorem no_delay_after_failed_question:
  "length (events (run_session id failing_backend ''b'' ''b.com'')) = 11 \<and>
   Sleep 2000 \<notin> set (events (run_session id failing_backend ''b'' ''b.com''))"
  by (simp add: run_session_def failing_backend_def generateEnrichmentQuestions_def ask_question_def)

text \<open>
  C4, as amended. The question loop yields one result per question, in question order,
  eleven in all, however many questions fail: a failed question contributes the answer
  \<open>Error:\<close> followed by the text of what was thrown. \<open>processLeadEnrichment\<close> returns this
  list as \<open>enrichmentData\<close> whenever the email contains \<open>@\<close> and neither the scoring call
  nor the extraction call after the loop rejects.
\<close>

theorem one_result_per_question:
  "length (enrichmentResults (run_session fmt env c d)) = length (generateEnrichmentQuestions c d) \<and>
   length (generateEnrichmentQuestions c d) = 11 \<and>
   map question (enrichmentResults (run_session fmt env c d)) = generateEnrichmentQuestions c d \<and>
   (\<forall>k<11. answer (enrichmentResults (run_session fmt env c d) ! k) =
      (case sendMessage fmt (chat_api env k) of Inr a \<Rightarrow> a | Inl e \<Rightarrow> ''Error: '' @ toErrorString e)) \<and>
   (CHR ''@'' \<in> set em \<and> scoring_model env = Inr scoreText \<and> extraction_model env = Inr fieldsText \<longrightarrow>
      length (enrichmentData (fst (processLeadEnrichment fmt env em))) = 11 \<and>
      (\<exists>c d. extractCompanyInfo em = Inr (c, d) \<and>
         enrichmentData (fst (processLeadEnrichment fmt env em)) = enrichmentResults (run_session fmt env c d)))"
proof -
  let ?qs = "generateEnrichmentQuestions c d"
  have len: "length ?qs = 11" by (rule length_generateEnrichmentQuestions)
  have res: "enrichmentResults (run_session fmt env c d) =
      map (\<lambda>k. \<lparr>question = ?qs ! k,
                 answer = (case sendMessage fmt (chat_api env k) of
                              Inr a \<Rightarrow> a | Inl e \<Rightarrow> ''Error: '' @ toErrorString e)\<rparr>) [0..<length ?qs]"
    by (simp add: run_session_def ask_questions_results)
  have q: "map question (enrichmentResults (run_session fmt env c d)) = ?qs"
    unfolding res by (simp add: comp_def map_nth)
  have a: "\<forall>k<11. answer (enrichmentResults (run_session fmt env c d) ! k) =
      (case sendMessage fmt (chat_api env k) of Inr a \<Rightarrow> a | Inl e \<Rightarrow> ''Error: '' @ toErrorString e)"
    unfolding res using len by simp
  have whole: "CHR ''@'' \<in> set em \<and> scoring_model env = Inr scoreText \<and> extraction_model env = Inr fieldsText \<longrightarrow>
      length (enrichmentData (fst (processLeadEnrichment fmt env em))) = 11 \<and>
      (\<exists>c d. extractCompanyInfo em = Inr (c, d) \<and>
         enrichmentData (fst (processLeadEnrichment fmt env em)) = enrichmentResults (run_session fmt env c d))"
  proof
    assume h: "CHR ''@'' \<in> set em \<and> scoring_model env = Inr scoreText \<and> extraction_model env = Inr fieldsText"
    then obtain c' d' where cd: "extractCompanyInfo em = Inr (c', d')"
      using extractCompanyInfo_at by blast
    have "enrichmentData (fst (processLeadEnrichment fmt env em)) = enrichmentResults (run_session fmt env c' d')"
      using h cd
      by (simp add: processLeadEnrichment_def scoreLeadWithGemini_def extractCrmLeadFieldsWithLLM_def
          parse_crm_fields_def Let_def split: sum.splits prod.splits)
    with cd show "length (enrichmentData (fst (processLeadEnrichment fmt env em))) = 11 \<and>
      (\<exists>c d. extractCompanyInfo em = Inr (c, d) \<and>
         enrichmentData (fst (processLeadEnrichment fmt env em)) = enrichmentResults (run_session fmt env c d))"
      by (simp add: run_session_length)
  qed
  from len q a whole show ?thesis
    by (simp add: run_session_length)
qed

theorem one_result_per_question_witness:
  "CHR ''@'' \<in> set ''a@b.com'' \<and>
   length (enrichmentData (fst (processLeadEnrichment id failing_backend ''a@b.com''))) = 11 \<and>
   answer (enrichmentResults (run_session id failing_backend ''b'' ''b.com'') ! 3) = ''Error: fetch failed''"
proof -
  have at: "CHR ''@'' \<in> set ''a@b.com''" by simp
  have s: "scoring_model failing_backend = Inr ''Total Score: 0/90''"
    and e: "extraction_model failing_backend = Inr ''{}''"
    and c: "chat_api failing_backend 3 = FetchRejected (ErrorObj ''fetch failed'')"
    by (simp_all add: failing_backend_def)
  have k: "(3::nat) < 11" by simp
  show ?thesis
    using one_result_per_question [of id failing_backend "''b''" "''b.com''" "''a@b.com''"
        "''Total Score: 0/90''" "''{}''"] at s e c k
    by simp
qed


text \<open>C4, counterexample. When the scoring call rejects, the list returned for \<open>a@b.com\<close> is empty, while the
  question list has eleven entries.\<close>

theorem rejected_scoring_empties_the_list:
  "length (enrichmentData (fst (processLeadEnrichment id scoring_down ''a@b.com''))) = 0 \<and>
   length (generateEnrichmentQuestions ''b'' ''b.com'') = 11 \<and>
   extractCompanyInfo ''a@b.com'' = Inr (''b'', ''b.com'')"
  by (simp add: processLeadEnrichment_def extractCompanyInfo_def first_piece_def scoring_down_def failing_backend_def
      scoreLeadWithGemini_def catch_outcome_def length_generateEnrichmentQuestions Let_def)

section \<open>The batch\<close>

text \<open>
  C5, as amended. \<open>enrichLeads\<close> trims each entry and keeps those that contain \<open>@\<close>; it
  neither lowercases nor removes duplicates, and processes one lead per entry kept. On
  the list of the example it keeps \<open>A@b.com\<close> and \<open>a@b.com\<close> and processes two leads. The
  lowercasing and the removal of duplicates are those of the request boundary, which
  rejects this list because \<open>bad-email\<close> is not of the email format.
\<close>

theorem batch_keeps_case_and_duplicates:
  assumes "configuration env = None"
  shows "map email (results (fst (enrichLeads fmt env emails))) = validEmails emails \<and>
         validEmails ['' A@b.com '', ''bad-email'', ''a@b.com''] = [''A@b.com'', ''a@b.com''] \<and>
         length (results (fst (enrichLeads fmt env ['' A@b.com '', ''bad-email'', ''a@b.com'']))) = 2 \<and>
         validateRequest_emails [JString '' A@b.com '', JString ''bad-email'', JString ''a@b.com''] =
           Inl ''Invalid email format(s): bad-email''"
proof -
  have all: "map email (results (fst (enrichLeads fmt env emails))) = validEmails emails" for emails
    using assms by (rule enrichLeads_emails)
  have "length (map email (results (fst (enrichLeads fmt env ['' A@b.com '', ''bad-email'', ''a@b.com''])))) = 2"
    unfolding all valid_example by simp
  then have two: "length (results (fst (enrichLeads fmt env ['' A@b.com '', ''bad-email'', ''a@b.com'']))) = 2"
    by simp
  from all two show ?thesis
    by (simp add: valid_example validate_example)
qed

theorem batch_keeps_case_and_duplicates_witness:
  "configuration quiet_batch = None \<and>
   length (results (fst (enrichLeads id quiet_batch ['' A@b.com '', ''bad-email'', ''a@b.com'']))) = 2"
proof -
  have c: "configuration quiet_batch = None" by (simp add: quiet_batch_def)
  show ?thesis
    using batch_keeps_case_and_duplicates [OF c, of id] c by simp
qed


text \<open>C5, counterexample. On the list of the example, two leads are processed, \<open>A@b.com\<close> and \<open>a@b.com\<close>.\<close>

theorem batch_processes_two_leads:
  "map email (results (fst (enrichLeads id quiet_batch ['' A@b.com '', ''bad-email'', ''a@b.com'']))) =
     [''A@b.com'', ''a@b.com'']"
proof -
  have "configuration quiet_batch = None" by (simp add: quiet_batch_def)
  then show ?thesis
    using enrichLeads_emails [of quiet_batch id] valid_example by simp
qed
section \<open>The outer \<open>catch\<close> of \<open>processLeadEnrichment\<close>\<close>

text \<open>
  C10. When the scoring call or the extraction call rejects after the question loop has
  run (the email contains \<open>@\<close>, so the loop was reached and collected its eleven
  question/answer pairs), \<open>processLeadEnrichment\<close> returns the outcome of its outer
  \<open>catch\<close>: \<open>error\<close> is the text of what was thrown, \<open>enrichmentData\<close> is the empty list,
  \<open>chatId\<close> is the empty string, \<open>score\<close> and \<open>reason\<close> are absent and \<open>structuredFields\<close>
  is the empty object. The collected pairs are dropped.
\<close>

theorem post_loop_rejection_discards_answers:
  assumes at: "CHR ''@'' \<in> set em"
    and rejects: "scoring_model env = Inl err \<or>
                  (\<exists>text. scoring_model env = Inr text \<and> extraction_model env = Inl err)"
  shows "error (fst (processLeadEnrichment fmt env em)) = Some (toErrorString err) \<and>
         enrichmentData (fst (processLeadEnrichment fmt env em)) = [] \<and>
         chatId (fst (processLeadEnrichment fmt env em)) = [] \<and>
         score (fst (processLeadEnrichment fmt env em)) = None \<and>
         reason (fst (processLeadEnrichment fmt env em)) = None \<and>
         structuredFields (fst (processLeadEnrichment fmt env em)) = Some (JObject []) \<and>
         (\<exists>c d. extractCompanyInfo em = Inr (c, d) \<and>
                 length (enrichmentResults (run_session fmt env c d)) = 11)"
proof -
  obtain c d where cd: "extractCompanyInfo em = Inr (c, d)"
    using extractCompanyInfo_at [OF at] by blast
  have "fst (processLeadEnrichment fmt env em) = catch_outcome em err"
    using rejects cd
    by (auto simp: processLeadEnrichment_def scoreLeadWithGemini_def
        extractCrmLeadFieldsWithLLM_def Let_def split: sum.splits prod.splits)
  then show ?thesis
    using cd by (simp add: catch_outcome_def run_session_length)
qed

theorem post_loop_rejection_discards_answers_witness:
  "CHR ''@'' \<in> set ''a@b.com'' \<and>
   scoring_model scoring_down = Inl (ErrorObj ''quota exceeded'') \<and>
   error (fst (processLeadEnrichment id scoring_down ''a@b.com'')) = Some ''quota exceeded'' \<and>
   enrichmentData (fst (processLeadEnrichment id scoring_down ''a@b.com'')) = [] \<and>
   chatId (fst (processLeadEnrichment id scoring_down ''a@b.com'')) = []"
proof -
  have at: "CHR ''@'' \<in> set ''a@b.com''" by simp
  have rej: "scoring_model scoring_down = Inl (ErrorObj ''quota exceeded'')"
    by (simp add: scoring_down_def failing_backend_def)
  show ?thesis
    using post_loop_rejection_discards_answers [OF at disjI1 [OF rej], of id] at rej by simp
qed


end
